theory Spec2Isabelle
  imports Main "HOL-Library.Product_Lexorder"
begin

section \<open>Data model\<close>

text \<open>
  Modelled from the spec: \<^verbatim>\<open>blog.models\<close>, which declares the four tables that the views
  of \<^verbatim>\<open>blog/views.py\<close> work on, is missing from the sources. The rows carry the
  attributes that the specification lists for each entity, under the names by which the
  views read them; a user row also has the name and e-mail fields of the framework's user
  model. Every post has a category and an author, as in the specification. A foreign key
  is stored as the primary key of the row it refers to, as the object-relational mapper
  stores it. A table is the list of its rows in creation order. The tables that the views
  insert into have a sequence for their primary keys: \<open>post_id_seq\<close> and
  \<open>comment_id_seq\<close> hold the last key handed out, and a key is never handed out twice,
  also after its row is deleted.
\<close>

record user =
  user_id :: nat
  username :: string
  first_name :: string
  last_name :: string
  email :: string

record category =
  category_id :: nat
  slug :: string
  category_is_published :: bool

record post =
  post_id :: nat
  post_title :: string
  post_text :: string
  pub_date :: int
  is_published :: bool
  post_author :: nat
  post_category :: nat

record comment =
  comment_id :: nat
  comment_text :: string
  created_at :: int
  comment_author :: nat
  comment_post :: nat

record db =
  users :: "user list"
  categories :: "category list"
  posts :: "post list"
  comments :: "comment list"
  post_id_seq :: nat
  comment_id_seq :: nat

text \<open>
  \<^verbatim>\<open>request.user\<close> is either the anonymous user or a row of the user table. The time
  \<^verbatim>\<open>timezone.now()\<close> read during the request is the field \<open>now\<close>.
\<close>

datatype viewer = AnonymousUser | Authenticated user

record request =
  user :: viewer
  now :: int

text \<open>
  Exceptions that leave a view. \<open>Http404\<close> is the not-found signal and
  \<open>PermissionDenied\<close> the framework's forbidden signal; \<open>MultipleObjectsReturned\<close> and
  \<open>DoesNotExist\<close> are the mapper's own errors, which the framework reports as a server
  error.
\<close>

datatype error = Http404 | PermissionDenied | MultipleObjectsReturned | DoesNotExist

section \<open>Queries\<close>

text \<open>
  \<^verbatim>\<open>get_object_or_404(Model, **lookups)\<close>: the single row that matches the lookups;
  \<open>Http404\<close> when no row matches. The mapper raises \<open>MultipleObjectsReturned\<close> when
  several rows match.
\<close>

definition get_object_or_404 :: "'a list \<Rightarrow> ('a \<Rightarrow> bool) \<Rightarrow> error + 'a" where
  "get_object_or_404 tbl lookups =
     (case filter lookups tbl of
        [] \<Rightarrow> Inl Http404
      | [x] \<Rightarrow> Inr x
      | _ \<Rightarrow> Inl MultipleObjectsReturned)"

text \<open>
  Model equality as the mapper defines it: two rows of one table are equal when their
  primary keys are. The anonymous user equals no row.
\<close>

fun is_user :: "viewer \<Rightarrow> nat \<Rightarrow> bool" where
  "is_user AnonymousUser uid = False"
| "is_user (Authenticated u) uid = (user_id u = uid)"

text \<open>The row behind \<^verbatim>\<open>post.category\<close>, found by the stored key.\<close>

definition category_of :: "db \<Rightarrow> 'a post_scheme \<Rightarrow> category option" where
  "category_of d p = find (\<lambda>c. category_id c = post_category p) (categories d)"

section \<open>Post detail\<close>

text \<open>
  \<^verbatim>\<open>PostDetailView.get_object\<close>. The conjunction is evaluated left to right and stops at
  the first false conjunct, so the category is only fetched for a published post.
\<close>

definition PostDetailView_get_object :: "db \<Rightarrow> request \<Rightarrow> nat \<Rightarrow> error + post" where
  "PostDetailView_get_object d req pk =
     (case get_object_or_404 (posts d) (\<lambda>p. post_id p = pk) of
        Inl e \<Rightarrow> Inl e
      | Inr p \<Rightarrow>
          if \<not> is_user (user req) (post_author p) then
            (if \<not> is_published p then Inl Http404
             else (case category_of d p of
                     None \<Rightarrow> Inl DoesNotExist
                   | Some c \<Rightarrow>
                       if \<not> (category_is_published c \<and> pub_date p \<le> now req)
                       then Inl Http404
                       else Inr p))
          else Inr p)"

section \<open>Post listings\<close>

text \<open>
  A lookup through the category relation, such as \<^verbatim>\<open>category__is_published=True\<close>,
  is a join: a post whose category row is missing matches no such lookup.
\<close>

definition category_lookup :: "db \<Rightarrow> (category \<Rightarrow> bool) \<Rightarrow> 'a post_scheme \<Rightarrow> bool" where
  "category_lookup d cond p = (case category_of d p of None \<Rightarrow> False | Some c \<Rightarrow> cond c)"

text \<open>
  Modelled from the spec: \<^verbatim>\<open>blog.mixins.CustomListMixin\<close> is missing from the sources.
  Its queryset is the one the specification gives to every listing: all posts, ordered by
  \<open>pub_date\<close> descending with ties in creation order (ascending primary key), each
  annotated with the number of its comments.
\<close>

record listed_post = post +
  comment_count :: nat

definition annotate :: "db \<Rightarrow> post \<Rightarrow> listed_post" where
  "annotate d p =
     post.extend p
       (listed_post.fields (length (filter (\<lambda>c. comment_post c = post_id p) (comments d))))"

definition CustomListMixin_get_queryset :: "db \<Rightarrow> listed_post list" where
  "CustomListMixin_get_queryset d =
     map (annotate d) (sort_key (\<lambda>p. (- pub_date p, post_id p)) (posts d))"

text \<open>\<^verbatim>\<open>IndexHome.get_queryset\<close>.\<close>

definition IndexHome_get_queryset :: "db \<Rightarrow> request \<Rightarrow> listed_post list" where
  "IndexHome_get_queryset d req =
     filter (\<lambda>p. is_published p
                \<and> category_lookup d category_is_published p
                \<and> pub_date p \<le> now req)
       (CustomListMixin_get_queryset d)"

text \<open>\<^verbatim>\<open>CategoryListView.get_queryset\<close>, with \<^verbatim>\<open>kwargs['category_slug']\<close> as \<open>s\<close>.\<close>

definition CategoryListView_get_queryset ::
  "db \<Rightarrow> request \<Rightarrow> string \<Rightarrow> error + listed_post list" where
  "CategoryListView_get_queryset d req s =
     (case get_object_or_404 (categories d) (\<lambda>c. slug c = s \<and> category_is_published c) of
        Inl e \<Rightarrow> Inl e
      | Inr cat \<Rightarrow>
          Inr (filter (\<lambda>p. is_published p
                         \<and> category_lookup d category_is_published p
                         \<and> pub_date p \<le> now req
                         \<and> category_lookup d (\<lambda>c. slug c = s) p)
                 (CustomListMixin_get_queryset d)))"

text \<open>\<^verbatim>\<open>ProfileView.get_queryset\<close>, with \<^verbatim>\<open>kwargs['username']\<close> as \<open>name\<close>.\<close>

definition ProfileView_get_queryset ::
  "db \<Rightarrow> request \<Rightarrow> string \<Rightarrow> error + listed_post list" where
  "ProfileView_get_queryset d req name =
     (case get_object_or_404 (users d) (\<lambda>u. username u = name) of
        Inl e \<Rightarrow> Inl e
      | Inr author \<Rightarrow>
          (let queryset = filter (\<lambda>p. post_author p = user_id author)
                            (CustomListMixin_get_queryset d)
           in if is_user (user req) (user_id author) then Inr queryset
              else Inr (filter (\<lambda>p. pub_date p \<le> now req
                                  \<and> is_published p
                                  \<and> category_lookup d category_is_published p)
                          queryset)))"

text \<open>
  The order of a listing in the specification's words: a later publication date comes
  first, and of two posts with the same date the one created first (the smaller primary
  key) comes first.
\<close>

definition newest_first :: "'a post_scheme \<Rightarrow> 'b post_scheme \<Rightarrow> bool" where
  "newest_first p q =
     (pub_date q < pub_date p \<or> (pub_date p = pub_date q \<and> post_id p < post_id q))"

section \<open>Writes\<close>

text \<open>
  What a write view answers: a redirect, or the form shown again when it did not validate.
\<close>

datatype page = LoginPage | ProfilePage string | PostDetailPage nat

datatype response = Redirect page | RenderForm

text \<open>
  Modelled from the spec: \<^verbatim>\<open>blog.forms\<close> is missing from the sources, and the
  specification leaves validation to the framework. A submitted form is taken after
  validation: the verdict, and the row that the form built from the submitted data
  (\<^verbatim>\<open>form.instance\<close>). An update takes from that row the attributes of the entity
  other than its primary key and its owner.
\<close>

record 'a form =
  is_valid :: bool
  form_instance :: 'a

text \<open>
  \<^verbatim>\<open>LoginRequiredMixin\<close> answers a request of the anonymous user with a redirect to the
  login page and lets every other request through.
\<close>

fun is_authenticated :: "viewer \<Rightarrow> bool" where
  "is_authenticated AnonymousUser = False"
| "is_authenticated (Authenticated u) = True"

text \<open>
  Saving a row that has a primary key updates the stored row with that key, and inserts
  the row when no stored row has it.
\<close>

definition save_row :: "('a \<Rightarrow> nat) \<Rightarrow> 'a \<Rightarrow> 'a list \<Rightarrow> 'a list" where
  "save_row key obj tbl =
     (if list_ex (\<lambda>r. key r = key obj) tbl
      then map (\<lambda>r. if key r = key obj then obj else r) tbl
      else tbl @ [obj])"

text \<open>
  \<^verbatim>\<open>ProfileUpdateView\<close>: \<^verbatim>\<open>get_object\<close> returns \<^verbatim>\<open>request.user\<close>. On a valid form the
  fields of the form are written into that object, which is saved;
  \<^verbatim>\<open>get_success_url\<close> then reads the user name of the same object.
\<close>

definition ProfileUpdateView_get_object :: "request \<Rightarrow> viewer" where
  "ProfileUpdateView_get_object req = user req"

definition ProfileUpdateView_post :: "db \<Rightarrow> request \<Rightarrow> user form \<Rightarrow> response \<times> db" where
  "ProfileUpdateView_post d req f =
     (case ProfileUpdateView_get_object req of
        AnonymousUser \<Rightarrow> (Redirect LoginPage, d)
      | Authenticated u \<Rightarrow>
          if is_valid f then
            (let obj = u\<lparr>username := username (form_instance f),
                         first_name := first_name (form_instance f),
                         last_name := last_name (form_instance f),
                         email := email (form_instance f)\<rparr>
             in (Redirect (ProfilePage (username obj)),
                 d\<lparr>users := save_row user_id obj (users d)\<rparr>))
          else (RenderForm, d))"

text \<open>
  \<^verbatim>\<open>PostCreateView\<close>: \<^verbatim>\<open>form_valid\<close> sets the author of the form's row to
  \<^verbatim>\<open>request.user\<close>, then the row is inserted under the next key of the sequence.
\<close>

definition PostCreateView_post :: "db \<Rightarrow> request \<Rightarrow> post form \<Rightarrow> response \<times> db" where
  "PostCreateView_post d req f =
     (case user req of
        AnonymousUser \<Rightarrow> (Redirect LoginPage, d)
      | Authenticated u \<Rightarrow>
          if is_valid f then
            (let inst = (form_instance f)\<lparr>post_author := user_id u\<rparr>;
                 obj = inst\<lparr>post_id := Suc (post_id_seq d)\<rparr>
             in (Redirect (ProfilePage (username u)),
                 d\<lparr>posts := posts d @ [obj], post_id_seq := Suc (post_id_seq d)\<rparr>))
          else (RenderForm, d))"

text \<open>
  \<^verbatim>\<open>CommentCreateView\<close>, with \<^verbatim>\<open>kwargs.get('post_id')\<close> as \<open>pid\<close>: its own
  \<^verbatim>\<open>dispatch\<close> fetches the post before \<^verbatim>\<open>LoginRequiredMixin\<close> looks at the user;
  \<^verbatim>\<open>form_valid\<close> sets author and post of the form's row.
\<close>

definition CommentCreateView_post ::
  "db \<Rightarrow> request \<Rightarrow> nat \<Rightarrow> comment form \<Rightarrow> error + response \<times> db" where
  "CommentCreateView_post d req pid f =
     (case get_object_or_404 (posts d) (\<lambda>p. post_id p = pid) of
        Inl e \<Rightarrow> Inl e
      | Inr post_instance \<Rightarrow>
          (case user req of
             AnonymousUser \<Rightarrow> Inr (Redirect LoginPage, d)
           | Authenticated u \<Rightarrow>
               if is_valid f then
                 (let inst = (form_instance f)\<lparr>comment_author := user_id u,
                                                comment_post := post_id post_instance\<rparr>;
                      obj = inst\<lparr>comment_id := Suc (comment_id_seq d)\<rparr>
                  in Inr (Redirect (PostDetailPage pid),
                          d\<lparr>comments := comments d @ [obj],
                            comment_id_seq := Suc (comment_id_seq d)\<rparr>))
               else Inr (RenderForm, d)))"

subsection \<open>Edit and delete\<close>

text \<open>
  Modelled from the spec: \<^verbatim>\<open>blog.mixins.PostChangeMixin\<close> and
  \<^verbatim>\<open>blog.mixins.CommentChangeMixin\<close> are missing from the sources. Following the
  specification, \<open>canMutate\<close> holds iff the viewer is the entity's author, and a request
  that fails it is answered, before anything is written, by a redirect to the post's
  page. A request that passes goes on to the framework's update or delete.
\<close>

definition canMutate :: "nat \<Rightarrow> viewer \<Rightarrow> bool" where
  "canMutate entity_author v = is_user v entity_author"

definition PostChangeMixin_dispatch ::
  "db \<Rightarrow> request \<Rightarrow> nat \<Rightarrow> (post \<Rightarrow> response \<times> db) \<Rightarrow> error + response \<times> db" where
  "PostChangeMixin_dispatch d req pid handler =
     (case get_object_or_404 (posts d) (\<lambda>p. post_id p = pid) of
        Inl e \<Rightarrow> Inl e
      | Inr p \<Rightarrow>
          if \<not> canMutate (post_author p) (user req)
          then Inr (Redirect (PostDetailPage pid), d)
          else Inr (handler p))"

definition CommentChangeMixin_dispatch ::
  "db \<Rightarrow> request \<Rightarrow> nat \<Rightarrow> nat \<Rightarrow> (comment \<Rightarrow> response \<times> db) \<Rightarrow> error + response \<times> db" where
  "CommentChangeMixin_dispatch d req pid cid handler =
     (case get_object_or_404 (comments d) (\<lambda>c. comment_id c = cid) of
        Inl e \<Rightarrow> Inl e
      | Inr c \<Rightarrow>
          if \<not> canMutate (comment_author c) (user req)
          then Inr (Redirect (PostDetailPage pid), d)
          else Inr (handler c))"

text \<open>
  \<^verbatim>\<open>PostUpdateView\<close>, with \<^verbatim>\<open>kwargs['post_id']\<close> as \<open>pid\<close>. \<^verbatim>\<open>LoginRequiredMixin\<close>
  comes first in the class's bases. A valid form overwrites the editable attributes of the
  post, and the view redirects to the post's page.
\<close>

definition PostUpdateView_post ::
  "db \<Rightarrow> request \<Rightarrow> nat \<Rightarrow> post form \<Rightarrow> error + response \<times> db" where
  "PostUpdateView_post d req pid f =
     (if \<not> is_authenticated (user req) then Inr (Redirect LoginPage, d)
      else PostChangeMixin_dispatch d req pid
             (\<lambda>p. if is_valid f then
                     (let obj = p\<lparr>post_title := post_title (form_instance f),
                                  post_text := post_text (form_instance f),
                                  pub_date := pub_date (form_instance f),
                                  is_published := is_published (form_instance f),
                                  post_category := post_category (form_instance f)\<rparr>
                      in (Redirect (PostDetailPage pid),
                          d\<lparr>posts := save_row post_id obj (posts d)\<rparr>))
                   else (RenderForm, d)))"

text \<open>
  \<^verbatim>\<open>PostDeleteView\<close>: the post goes, and with it the comments that refer to it (the
  referential deletion of the specification's data model); the view redirects to the
  profile of \<^verbatim>\<open>request.user\<close>.
\<close>

definition PostDeleteView_post :: "db \<Rightarrow> request \<Rightarrow> nat \<Rightarrow> error + response \<times> db" where
  "PostDeleteView_post d req pid =
     (case user req of
        AnonymousUser \<Rightarrow> Inr (Redirect LoginPage, d)
      | Authenticated u \<Rightarrow>
          PostChangeMixin_dispatch d req pid
            (\<lambda>p. (Redirect (ProfilePage (username u)),
                  d\<lparr>posts := filter (\<lambda>q. post_id q \<noteq> post_id p) (posts d),
                    comments := filter (\<lambda>c. comment_post c \<noteq> post_id p) (comments d)\<rparr>)))"

text \<open>
  \<^verbatim>\<open>CommentUpdateView\<close> and \<^verbatim>\<open>CommentDeleteView\<close>, with \<^verbatim>\<open>kwargs['post_id']\<close> as
  \<open>pid\<close> and the comment's key as \<open>cid\<close>.
\<close>

definition CommentUpdateView_post ::
  "db \<Rightarrow> request \<Rightarrow> nat \<Rightarrow> nat \<Rightarrow> comment form \<Rightarrow> error + response \<times> db" where
  "CommentUpdateView_post d req pid cid f =
     (if \<not> is_authenticated (user req) then Inr (Redirect LoginPage, d)
      else CommentChangeMixin_dispatch d req pid cid
             (\<lambda>c. if is_valid f then
                     (let obj = c\<lparr>comment_text := comment_text (form_instance f)\<rparr>
                      in (Redirect (PostDetailPage pid),
                          d\<lparr>comments := save_row comment_id obj (comments d)\<rparr>))
                   else (RenderForm, d)))"

definition CommentDeleteView_post ::
  "db \<Rightarrow> request \<Rightarrow> nat \<Rightarrow> nat \<Rightarrow> error + response \<times> db" where
  "CommentDeleteView_post d req pid cid =
     (if \<not> is_authenticated (user req) then Inr (Redirect LoginPage, d)
      else CommentChangeMixin_dispatch d req pid cid
             (\<lambda>c. (Redirect (PostDetailPage pid),
                  d\<lparr>comments := filter (\<lambda>x. comment_id x \<noteq> comment_id c) (comments d)\<rparr>)))"

section \<open>A sample database\<close>

text \<open>
  Two users, a published and an unpublished category, and five posts of which two are
  live at time 100: one dated in the future, one draft, one in the unpublished category,
  and two live posts sharing a publication date.
\<close>

definition alice :: user where
  "alice = \<lparr>user_id = 1, username = ''alice'', first_name = ''Alice'', last_name = ''A'',
     email = ''a@example.org''\<rparr>"

definition bob :: user where
  "bob = \<lparr>user_id = 2, username = ''bob'', first_name = ''Bob'', last_name = ''B'',
     email = ''b@example.org''\<rparr>"

definition news :: category where
  "news = \<lparr>category_id = 1, slug = ''news'', category_is_published = True\<rparr>"

definition archive :: category where
  "archive = \<lparr>category_id = 2, slug = ''archive'', category_is_published = False\<rparr>"

definition live_post :: post where
  "live_post = \<lparr>post_id = 1, post_title = ''Hello'', post_text = ''First'', pub_date = 10,
     is_published = True, post_author = 1, post_category = 1\<rparr>"

definition future_post :: post where
  "future_post = \<lparr>post_id = 2, post_title = ''Soon'', post_text = ''Later'', pub_date = 200,
     is_published = True, post_author = 1, post_category = 1\<rparr>"

definition draft_post :: post where
  "draft_post = \<lparr>post_id = 3, post_title = ''Draft'', post_text = ''Unfinished'',
     pub_date = 20, is_published = False, post_author = 1, post_category = 1\<rparr>"

definition archived_post :: post where
  "archived_post = \<lparr>post_id = 4, post_title = ''Old'', post_text = ''Stored'', pub_date = 30,
     is_published = True, post_author = 2, post_category = 2\<rparr>"

definition tied_post :: post where
  "tied_post = \<lparr>post_id = 5, post_title = ''Twin'', post_text = ''Same day'', pub_date = 10,
     is_published = True, post_author = 2, post_category = 1\<rparr>"

definition first_comment :: comment where
  "first_comment = \<lparr>comment_id = 1, comment_text = ''Nice'', created_at = 15,
     comment_author = 2, comment_post = 1\<rparr>"

definition blog_db :: db where
  "blog_db = \<lparr>users = [alice, bob], categories = [news, archive],
     posts = [live_post, future_post, draft_post, archived_post, tied_post],
     comments = [first_comment], post_id_seq = 5, comment_id_seq = 1\<rparr>"

definition as_alice :: request where
  "as_alice = \<lparr>user = Authenticated alice, now = 100\<rparr>"

definition as_bob :: request where
  "as_bob = \<lparr>user = Authenticated bob, now = 100\<rparr>"

definition as_anonymous :: request where
  "as_anonymous = \<lparr>user = AnonymousUser, now = 100\<rparr>"

text \<open>Submitted rows: a post that names bob as its author, a comment, and profile data.\<close>

definition new_post :: post where
  "new_post = \<lparr>post_id = 0, post_title = ''New'', post_text = ''Fresh'', pub_date = 50,
     is_published = True, post_author = 2, post_category = 1\<rparr>"

definition new_comment :: comment where
  "new_comment = \<lparr>comment_id = 0, comment_text = ''Me too'', created_at = 60,
     comment_author = 1, comment_post = 1\<rparr>"

definition new_profile :: user where
  "new_profile = \<lparr>user_id = 2, username = ''alicia'', first_name = ''Alicia'', last_name = ''A'',
     email = ''alicia@example.org''\<rparr>"

lemmas sample_defs = alice_def bob_def news_def archive_def live_post_def future_post_def
  draft_post_def archived_post_def tied_post_def first_comment_def blog_db_def
  as_alice_def as_bob_def as_anonymous_def

section \<open>Lookups by primary key\<close>

lemma filter_unique:
  "distinct (map f xs) \<Longrightarrow> x \<in> set xs \<Longrightarrow> filter (\<lambda>y. f y = f x) xs = [x]"
proof (induction xs)
  case Nil
  then show ?case by simp
next
  case (Cons a xs)
  show ?case
  proof (cases "a = x")
    case True
    with Cons.prems have "f x \<notin> f ` set xs" by simp
    then have "\<forall>y\<in>set xs. f y \<noteq> f x" by (metis imageI)
    then have "filter (\<lambda>y. f y = f x) xs = []" by (simp add: filter_empty_conv)
    with True show ?thesis by simp
  next
    case False
    with Cons.prems have "x \<in> set xs" by simp
    with Cons.prems have "f a \<noteq> f x" by auto
    note \<open>x \<in> set xs\<close> this
    with Cons show ?thesis by simp
  qed
qed

lemma get_by_key:
  "distinct (map f tbl) \<Longrightarrow> x \<in> set tbl \<Longrightarrow> get_object_or_404 tbl (\<lambda>y. f y = f x) = Inr x"
  by (simp add: get_object_or_404_def filter_unique)

lemma get_absent:
  "\<forall>x\<in>set tbl. \<not> lookups x \<Longrightarrow> get_object_or_404 tbl lookups = Inl Http404"
proof -
  assume "\<forall>x\<in>set tbl. \<not> lookups x"
  then have "filter lookups tbl = []" by (simp add: filter_empty_conv)
  then show ?thesis by (simp add: get_object_or_404_def)
qed

section \<open>Facts about the listing queryset\<close>

lemma annotate_fields:
  "post_id (annotate d p) = post_id p"
  "pub_date (annotate d p) = pub_date p"
  "is_published (annotate d p) = is_published p"
  "post_author (annotate d p) = post_author p"
  "post_category (annotate d p) = post_category p"
  "post.truncate (annotate d p) = p"
  by (simp_all add: annotate_def post.defs listed_post.defs)

lemma category_of_annotate: "category_of d (annotate d' p) = category_of d p"
  by (simp add: category_of_def annotate_fields)

lemma category_lookup_annotate:
  "category_lookup d cond (annotate d' p) = category_lookup d cond p"
  by (simp add: category_lookup_def category_of_annotate)

lemma category_lookup_Some:
  "category_lookup d cond p \<longleftrightarrow> (\<exists>c. category_of d p = Some c \<and> cond c)"
  by (simp add: category_lookup_def split: option.split)

lemma set_CustomListMixin:
  "set (CustomListMixin_get_queryset d) = annotate d ` set (posts d)"
  by (simp add: CustomListMixin_get_queryset_def)

lemma filter_conj_unique:
  assumes "distinct (map f xs)" and "x \<in> set xs" and "Q x"
  shows "filter (\<lambda>y. f y = f x \<and> Q y) xs = [x]"
proof -
  have "filter (\<lambda>y. f y = f x \<and> Q y) xs = filter Q (filter (\<lambda>y. f y = f x) xs)"
    by (simp add: conj_commute)
  with assms show ?thesis by (simp add: filter_unique)
qed

lemma CustomListMixin_sorted:
  assumes "distinct (map post_id (posts d))"
  shows "sorted_wrt newest_first (CustomListMixin_get_queryset d)"
proof -
  let ?key = "\<lambda>p::post. (- pub_date p, post_id p)"
  let ?xs = "sort_key ?key (posts d)"
  have "distinct (map post_id ?xs)"
    using assms by (simp add: distinct_map inj_on_def)
  then have "distinct (map ?key ?xs)"
    by (auto simp: distinct_map inj_on_def)
  moreover have "sorted (map ?key ?xs)"
    by (rule sorted_sort_key)
  ultimately have "sorted_wrt (<) (map ?key ?xs)"
    by (simp add: strict_sorted_iff)
  then have "sorted_wrt (\<lambda>p q. ?key p < ?key q) ?xs"
    by (simp add: sorted_wrt_map)
  then have "sorted_wrt (\<lambda>p q. newest_first (annotate d p) (annotate d q)) ?xs"
    by (rule sorted_wrt_mono_rel [rotated]) (auto simp: newest_first_def annotate_fields)
  then show ?thesis
    by (simp add: CustomListMixin_get_queryset_def sorted_wrt_map)
qed

section \<open>Reading one post\<close>

text \<open>
  C1. A viewer who is not the author of a stored post \<open>P\<close> gets \<open>P\<close> from the post-detail
  read exactly when \<open>P\<close> is live: published, in a published category, and dated no later
  than now. When \<open>P\<close> is not live the read ends in \<open>Http404\<close>, which is also what a key
  \<open>k\<close> of no stored post gives, and never in \<open>PermissionDenied\<close>.
\<close>

theorem PostDetailView_other_viewer:
  assumes "distinct (map post_id (posts d))"
    and "P \<in> set (posts d)"
    and "\<not> is_user (user req) (post_author P)"
    and "category_of d P = Some c"
    and "k \<notin> post_id ` set (posts d)"
  shows "PostDetailView_get_object d req (post_id P) =
           (if is_published P \<and> category_is_published c \<and> pub_date P \<le> now req
            then Inr P else Inl Http404)
         \<and> PostDetailView_get_object d req (post_id P) \<noteq> Inl PermissionDenied
         \<and> PostDetailView_get_object d req k = Inl Http404"
proof -
  have found: "get_object_or_404 (posts d) (\<lambda>p. post_id p = post_id P) = Inr P"
    using assms(1,2) by (rule get_by_key)
  have "\<forall>p\<in>set (posts d). \<not> post_id p = k"
    using assms(5) by auto
  then have absent: "get_object_or_404 (posts d) (\<lambda>p. post_id p = k) = Inl Http404"
    by (rule get_absent)
  have shown: "PostDetailView_get_object d req (post_id P) =
           (if is_published P \<and> category_is_published c \<and> pub_date P \<le> now req
            then Inr P else Inl Http404)"
    using assms(3,4) by (simp add: PostDetailView_get_object_def found)
  have missing: "PostDetailView_get_object d req k = Inl Http404"
    by (simp add: PostDetailView_get_object_def absent)
  from shown missing show ?thesis by simp
qed

theorem PostDetailView_other_viewer_witness:
  "distinct (map post_id (posts blog_db))
   \<and> future_post \<in> set (posts blog_db)
   \<and> \<not> is_user (user as_bob) (post_author future_post)
   \<and> category_of blog_db future_post = Some news
   \<and> 9 \<notin> post_id ` set (posts blog_db)
   \<and> PostDetailView_get_object blog_db as_bob 2 = Inl Http404
   \<and> PostDetailView_get_object blog_db as_bob 9 = Inl Http404"
proof -
  have h1: "distinct (map post_id (posts blog_db))" by (simp add: sample_defs)
  have h2: "future_post \<in> set (posts blog_db)" by (simp add: blog_db_def)
  have h3: "\<not> is_user (user as_bob) (post_author future_post)"
    by (simp add: sample_defs)
  have h4: "category_of blog_db future_post = Some news"
    by (simp add: category_of_def sample_defs)
  have h5: "9 \<notin> post_id ` set (posts blog_db)" by (simp add: sample_defs)
  have key: "post_id future_post = 2" by (simp add: future_post_def)
  have late: "\<not> pub_date future_post \<le> now as_bob" by (simp add: sample_defs)
  from PostDetailView_other_viewer [OF h1 h2 h3 h4 h5] key late
  have "PostDetailView_get_object blog_db as_bob 2 = Inl Http404
     \<and> PostDetailView_get_object blog_db as_bob 9 = Inl Http404"
    by simp
  with h1 h2 h3 h4 h5 show ?thesis by simp
qed

text \<open>
  C2. The author of a stored post \<open>P\<close> always gets \<open>P\<close> from the post-detail read, whatever
  the publication flag of the post or of its category and whatever its date.
\<close>

theorem PostDetailView_author:
  assumes "distinct (map post_id (posts d))"
    and "P \<in> set (posts d)"
    and "is_user (user req) (post_author P)"
  shows "PostDetailView_get_object d req (post_id P) = Inr P"
proof -
  have "get_object_or_404 (posts d) (\<lambda>p. post_id p = post_id P) = Inr P"
    using assms(1,2) by (rule get_by_key)
  with assms(3) show ?thesis by (simp add: PostDetailView_get_object_def)
qed

theorem PostDetailView_author_witness:
  "distinct (map post_id (posts blog_db))
   \<and> draft_post \<in> set (posts blog_db)
   \<and> is_user (user as_alice) (post_author draft_post)
   \<and> \<not> is_published draft_post
   \<and> PostDetailView_get_object blog_db as_alice 3 = Inr draft_post"
proof -
  have h1: "distinct (map post_id (posts blog_db))" by (simp add: sample_defs)
  have h2: "draft_post \<in> set (posts blog_db)" by (simp add: blog_db_def)
  have h3: "is_user (user as_alice) (post_author draft_post)" by (simp add: sample_defs)
  have key: "post_id draft_post = 3" by (simp add: draft_post_def)
  have hidden: "\<not> is_published draft_post" by (simp add: draft_post_def)
  from PostDetailView_author [OF h1 h2 h3] key
  have "PostDetailView_get_object blog_db as_alice 3 = Inr draft_post" by simp
  with h1 h2 h3 hidden show ?thesis by simp
qed

section \<open>Listings\<close>

text \<open>
  C4. Every entry of the home-page listing, which is the same for the anonymous viewer as
  for any other, is a stored post that is published, lies in a published category and is
  dated no later than now.
\<close>

theorem IndexHome_only_live:
  assumes "p \<in> set (IndexHome_get_queryset d req)"
  shows "is_published p
         \<and> (\<exists>c. category_of d p = Some c \<and> category_is_published c)
         \<and> pub_date p \<le> now req
         \<and> post.truncate p \<in> set (posts d)"
proof -
  from assms have live: "is_published p" "category_lookup d category_is_published p"
      "pub_date p \<le> now req"
    and base: "p \<in> set (CustomListMixin_get_queryset d)"
    by (simp_all add: IndexHome_get_queryset_def)
  from base have "post.truncate p \<in> set (posts d)"
    by (auto simp: set_CustomListMixin annotate_fields)
  with live show ?thesis by (simp add: category_lookup_Some)
qed

theorem IndexHome_only_live_witness:
  "annotate blog_db tied_post \<in> set (IndexHome_get_queryset blog_db as_anonymous)
   \<and> is_published (annotate blog_db tied_post)
   \<and> category_of blog_db (annotate blog_db tied_post) = Some news
   \<and> pub_date (annotate blog_db tied_post) \<le> now as_anonymous
   \<and> post.truncate (annotate blog_db tied_post) \<in> set (posts blog_db)"
proof -
  have listed: "annotate blog_db tied_post \<in> set (IndexHome_get_queryset blog_db as_anonymous)"
    by code_simp
  have cat: "category_of blog_db (annotate blog_db tied_post) = Some news"
    by (simp add: category_of_annotate) (simp add: category_of_def sample_defs)
  from IndexHome_only_live [OF listed] listed cat show ?thesis by simp
qed

text \<open>
  C6. A category listing for a slug \<open>s\<close> that no published category has, whether no
  category has it or only an unpublished one, ends in \<open>Http404\<close>. Whenever the listing
  for a slug \<open>t\<close> returns, a published category has that slug, and each entry \<open>p\<close> of the
  listing is published, dated no later than now, and lies in a published category with
  that slug. With slugs that differ from category to category, the listing for the slug
  of a published category does return.
\<close>

theorem CategoryListView_live_or_not_found:
  "(s \<notin> slug ` set (filter category_is_published (categories d))
      \<longrightarrow> CategoryListView_get_queryset d req s = Inl Http404)
   \<and> (CategoryListView_get_queryset d req t = Inr qs
      \<longrightarrow> t \<in> slug ` set (filter category_is_published (categories d))
          \<and> (p \<in> set qs
               \<longrightarrow> is_published p \<and> pub_date p \<le> now req
                   \<and> (\<exists>c. category_of d p = Some c \<and> category_is_published c
                            \<and> slug c = t)))
   \<and> (distinct (map slug (categories d)) \<longrightarrow> cat \<in> set (categories d)
      \<longrightarrow> category_is_published cat
      \<longrightarrow> (\<exists>found. CategoryListView_get_queryset d req (slug cat) = Inr found))"
proof -
  have hidden: "CategoryListView_get_queryset d req s = Inl Http404"
    if "s \<notin> slug ` set (filter category_is_published (categories d))"
  proof -
    from that have "\<forall>c\<in>set (categories d). \<not> (slug c = s \<and> category_is_published c)"
      by auto
    then have "get_object_or_404 (categories d) (\<lambda>c. slug c = s \<and> category_is_published c)
        = Inl Http404"
      by (rule get_absent)
    then show ?thesis by (simp add: CategoryListView_get_queryset_def)
  qed
  have listed: "t \<in> slug ` set (filter category_is_published (categories d))
          \<and> (p \<in> set qs
               \<longrightarrow> is_published p \<and> pub_date p \<le> now req
                   \<and> (\<exists>c. category_of d p = Some c \<and> category_is_published c
                            \<and> slug c = t))"
    if ret: "CategoryListView_get_queryset d req t = Inr qs"
  proof -
    from ret obtain c where got: "get_object_or_404 (categories d)
        (\<lambda>c. slug c = t \<and> category_is_published c) = Inr c"
      by (auto simp: CategoryListView_get_queryset_def split: sum.splits)
    then have "filter (\<lambda>c. slug c = t \<and> category_is_published c) (categories d) = [c]"
      by (auto simp: get_object_or_404_def split: list.splits)
    then have "c \<in> set (filter (\<lambda>c. slug c = t \<and> category_is_published c) (categories d))"
      by simp
    then have "c \<in> set (filter category_is_published (categories d))" and "slug c = t"
      by simp_all
    then have published: "t \<in> slug ` set (filter category_is_published (categories d))"
      by blast
    from ret got have "qs = filter (\<lambda>p. is_published p
                         \<and> category_lookup d category_is_published p
                         \<and> pub_date p \<le> now req
                         \<and> category_lookup d (\<lambda>c. slug c = t) p)
                 (CustomListMixin_get_queryset d)"
      by (simp add: CategoryListView_get_queryset_def)
    then have "p \<in> set qs
               \<longrightarrow> is_published p \<and> pub_date p \<le> now req
                   \<and> (\<exists>c. category_of d p = Some c \<and> category_is_published c
                            \<and> slug c = t)"
      by (auto simp: category_lookup_Some)
    with published show ?thesis by simp
  qed
  have returns: "\<exists>found. CategoryListView_get_queryset d req (slug cat) = Inr found"
    if "distinct (map slug (categories d))" and "cat \<in> set (categories d)"
      and "category_is_published cat"
  proof -
    have "filter (\<lambda>c. slug c = slug cat \<and> category_is_published c) (categories d) = [cat]"
      using that by (rule filter_conj_unique)
    then have "get_object_or_404 (categories d)
        (\<lambda>c. slug c = slug cat \<and> category_is_published c) = Inr cat"
      by (simp add: get_object_or_404_def)
    then show ?thesis by (simp add: CategoryListView_get_queryset_def)
  qed
  from hidden listed returns show ?thesis by blast
qed

theorem CategoryListView_live_or_not_found_witness:
  "''archive'' \<notin> slug ` set (filter category_is_published (categories blog_db))
   \<and> ''missing'' \<notin> slug ` set (categories blog_db)
   \<and> distinct (map slug (categories blog_db))
   \<and> news \<in> set (categories blog_db)
   \<and> category_is_published news
   \<and> CategoryListView_get_queryset blog_db as_anonymous ''archive'' = Inl Http404
   \<and> CategoryListView_get_queryset blog_db as_anonymous ''missing'' = Inl Http404
   \<and> CategoryListView_get_queryset blog_db as_anonymous ''news'' =
       Inr [annotate blog_db live_post, annotate blog_db tied_post]
   \<and> is_published (annotate blog_db tied_post)
   \<and> pub_date (annotate blog_db tied_post) \<le> now as_anonymous
   \<and> (\<exists>c. category_of blog_db (annotate blog_db tied_post) = Some c
           \<and> category_is_published c \<and> slug c = ''news'')"
proof -
  let ?qs = "[annotate blog_db live_post, annotate blog_db tied_post]"
  have h1: "''archive'' \<notin> slug ` set (filter category_is_published (categories blog_db))"
    by (simp add: sample_defs)
  have h1': "''missing'' \<notin> slug ` set (filter category_is_published (categories blog_db))"
    by (simp add: sample_defs)
  have none: "''missing'' \<notin> slug ` set (categories blog_db)"
    by (simp add: sample_defs)
  have h2: "distinct (map slug (categories blog_db))" by (simp add: sample_defs)
  have h3: "news \<in> set (categories blog_db)" by (simp add: blog_db_def)
  have h4: "category_is_published news" by (simp add: news_def)
  have h5: "CategoryListView_get_queryset blog_db as_anonymous ''news'' = Inr ?qs"
    by code_simp
  have h6: "annotate blog_db tied_post \<in> set ?qs" by simp
  note run = CategoryListView_live_or_not_found
    [where d = blog_db and req = as_anonymous and s = "''archive''" and t = "''news''"
       and qs = ?qs and p = "annotate blog_db tied_post" and cat = news]
  note gone = CategoryListView_live_or_not_found
    [where d = blog_db and req = as_anonymous and s = "''missing''"]
  from run h1 have unpublished:
    "CategoryListView_get_queryset blog_db as_anonymous ''archive'' = Inl Http404"
    by blast
  from gone h1' have absent:
    "CategoryListView_get_queryset blog_db as_anonymous ''missing'' = Inl Http404"
    by blast
  from run h5 h6 have live: "is_published (annotate blog_db tied_post)
      \<and> pub_date (annotate blog_db tied_post) \<le> now as_anonymous
      \<and> (\<exists>c. category_of blog_db (annotate blog_db tied_post) = Some c
              \<and> category_is_published c \<and> slug c = ''news'')"
    by blast
  from h1 none h2 h3 h4 unpublished absent h5 live show ?thesis by blast
qed

text \<open>
  C5. On the profile page of a user \<open>A\<close>, a request by \<open>A\<close> gets every entry of the base
  queryset whose author is \<open>A\<close>, with no liveness test, so each stored post \<open>P\<close> of \<open>A\<close>
  is in it, draft or future-dated or not. A request by anyone else gets only the live ones
  among them.
\<close>

theorem ProfileView_owner_sees_all:
  assumes "distinct (map username (users d))"
    and "A \<in> set (users d)"
    and "is_user (user own) (user_id A)"
    and "\<not> is_user (user other) (user_id A)"
    and "P \<in> set (posts d)"
    and "post_author P = user_id A"
  shows "ProfileView_get_queryset d own (username A) =
           Inr (filter (\<lambda>p. post_author p = user_id A) (CustomListMixin_get_queryset d))
         \<and> annotate d P \<in> set (filter (\<lambda>p. post_author p = user_id A)
                                   (CustomListMixin_get_queryset d))
         \<and> ProfileView_get_queryset d other (username A) =
           Inr (filter (\<lambda>p. pub_date p \<le> now other \<and> is_published p
                            \<and> category_lookup d category_is_published p)
                  (filter (\<lambda>p. post_author p = user_id A) (CustomListMixin_get_queryset d)))"
proof -
  have found: "get_object_or_404 (users d) (\<lambda>u. username u = username A) = Inr A"
    using assms(1,2) by (rule get_by_key)
  have mine: "ProfileView_get_queryset d own (username A) =
           Inr (filter (\<lambda>p. post_author p = user_id A) (CustomListMixin_get_queryset d))"
    using assms(3) by (simp add: ProfileView_get_queryset_def found)
  have theirs: "ProfileView_get_queryset d other (username A) =
           Inr (filter (\<lambda>p. pub_date p \<le> now other \<and> is_published p
                            \<and> category_lookup d category_is_published p)
                  (filter (\<lambda>p. post_author p = user_id A) (CustomListMixin_get_queryset d)))"
    using assms(4) by (simp add: ProfileView_get_queryset_def found)
  have "annotate d P \<in> set (filter (\<lambda>p. post_author p = user_id A)
                                   (CustomListMixin_get_queryset d))"
    using assms(5,6) by (simp add: set_CustomListMixin annotate_fields)
  with mine theirs show ?thesis by simp
qed

theorem ProfileView_owner_sees_all_witness:
  "distinct (map username (users blog_db))
   \<and> alice \<in> set (users blog_db)
   \<and> is_user (user as_alice) (user_id alice)
   \<and> \<not> is_user (user as_bob) (user_id alice)
   \<and> draft_post \<in> set (posts blog_db)
   \<and> post_author draft_post = user_id alice
   \<and> ProfileView_get_queryset blog_db as_alice ''alice'' =
       Inr [annotate blog_db future_post, annotate blog_db draft_post, annotate blog_db live_post]
   \<and> ProfileView_get_queryset blog_db as_bob ''alice'' = Inr [annotate blog_db live_post]"
proof -
  have h1: "distinct (map username (users blog_db))" by (simp add: sample_defs)
  have h2: "alice \<in> set (users blog_db)" by (simp add: blog_db_def)
  have h3: "is_user (user as_alice) (user_id alice)" by (simp add: sample_defs)
  have h4: "\<not> is_user (user as_bob) (user_id alice)" by (simp add: sample_defs)
  have h5: "draft_post \<in> set (posts blog_db)" by (simp add: blog_db_def)
  have h6: "post_author draft_post = user_id alice" by (simp add: sample_defs)
  have name: "username alice = ''alice''" by (simp add: alice_def)
  have all: "filter (\<lambda>p. post_author p = user_id alice) (CustomListMixin_get_queryset blog_db)
      = [annotate blog_db future_post, annotate blog_db draft_post, annotate blog_db live_post]"
    by code_simp
  have live: "filter (\<lambda>p. pub_date p \<le> now as_bob \<and> is_published p
                            \<and> category_lookup blog_db category_is_published p)
      [annotate blog_db future_post, annotate blog_db draft_post, annotate blog_db live_post]
      = [annotate blog_db live_post]"
    by code_simp
  from ProfileView_owner_sees_all [OF h1 h2 h3 h4 h5 h6] name all live
  have "ProfileView_get_queryset blog_db as_alice ''alice'' =
       Inr [annotate blog_db future_post, annotate blog_db draft_post, annotate blog_db live_post]
   \<and> ProfileView_get_queryset blog_db as_bob ''alice'' = Inr [annotate blog_db live_post]"
    by simp
  with h1 h2 h3 h4 h5 h6 show ?thesis by simp
qed

text \<open>
  C7. With primary keys that differ from post to post, every sequence that a listing
  returns is in the order \<open>newest_first\<close>: by publication date descending, and by primary
  key ascending among posts of one date. This holds of the home page, of each category
  listing that returns and of each profile listing that returns, one independently of
  the other. As no two posts compare equal in that order, it fixes the sequence.
\<close>

theorem listings_newest_first:
  assumes "distinct (map post_id (posts d))"
  shows "sorted_wrt newest_first (IndexHome_get_queryset d req)
         \<and> (CategoryListView_get_queryset d req s = Inr by_category
              \<longrightarrow> sorted_wrt newest_first by_category)
         \<and> (ProfileView_get_queryset d req name = Inr by_author
              \<longrightarrow> sorted_wrt newest_first by_author)"
proof -
  note base = CustomListMixin_sorted [OF assms]
  have home: "sorted_wrt newest_first (IndexHome_get_queryset d req)"
    unfolding IndexHome_get_queryset_def using base by (rule sorted_wrt_filter)
  have cat: "sorted_wrt newest_first by_category"
    if "CategoryListView_get_queryset d req s = Inr by_category"
  proof -
    from that have "\<exists>cond. by_category = filter cond (CustomListMixin_get_queryset d)"
      by (auto simp: CategoryListView_get_queryset_def split: sum.splits)
    with base show ?thesis by (auto intro: sorted_wrt_filter)
  qed
  have author: "sorted_wrt newest_first by_author"
    if "ProfileView_get_queryset d req name = Inr by_author"
  proof -
    from that have "\<exists>cond. by_author = filter cond (CustomListMixin_get_queryset d)"
      by (auto simp: ProfileView_get_queryset_def Let_def split: sum.splits if_splits)
    with base show ?thesis by (auto intro: sorted_wrt_filter)
  qed
  from home cat author show ?thesis by blast
qed

theorem listings_newest_first_witness:
  "distinct (map post_id (posts blog_db))
   \<and> CategoryListView_get_queryset blog_db as_alice ''news'' =
       Inr [annotate blog_db live_post, annotate blog_db tied_post]
   \<and> ProfileView_get_queryset blog_db as_alice ''alice'' =
       Inr [annotate blog_db future_post, annotate blog_db draft_post, annotate blog_db live_post]
   \<and> sorted_wrt newest_first (IndexHome_get_queryset blog_db as_alice)
   \<and> sorted_wrt newest_first [annotate blog_db live_post, annotate blog_db tied_post]
   \<and> sorted_wrt newest_first
       [annotate blog_db future_post, annotate blog_db draft_post, annotate blog_db live_post]"
proof -
  have h1: "distinct (map post_id (posts blog_db))" by (simp add: sample_defs)
  have h2: "CategoryListView_get_queryset blog_db as_alice ''news'' =
       Inr [annotate blog_db live_post, annotate blog_db tied_post]"
    by code_simp
  have h3: "ProfileView_get_queryset blog_db as_alice ''alice'' =
       Inr [annotate blog_db future_post, annotate blog_db draft_post, annotate blog_db live_post]"
    by code_simp
  note run = listings_newest_first [OF h1,
    where req = as_alice and s = "''news''" and name = "''alice''"
      and by_category = "[annotate blog_db live_post, annotate blog_db tied_post]"
      and by_author = "[annotate blog_db future_post, annotate blog_db draft_post,
                        annotate blog_db live_post]"]
  from run h2 h3 have "sorted_wrt newest_first (IndexHome_get_queryset blog_db as_alice)
   \<and> sorted_wrt newest_first [annotate blog_db live_post, annotate blog_db tied_post]
   \<and> sorted_wrt newest_first
       [annotate blog_db future_post, annotate blog_db draft_post, annotate blog_db live_post]"
    by blast
  with h1 h2 h3 show ?thesis by blast
qed

section \<open>Creating posts and comments\<close>

text \<open>
  C8. A post \<open>p\<close> that the post-create operation adds to the table has the requesting
  viewer as its author, whatever else the database holds. A comment \<open>c\<close> that the
  comment-create operation adds has the requesting viewer as its author and the stored
  post with the key \<open>pid\<close> of the address as its post. Whatever author (or post) the
  submitted form data carry makes no difference to either operation.
\<close>

theorem created_rows_belong_to_viewer:
  "(p \<in> set (posts (snd (PostCreateView_post d req pf))) \<longrightarrow> p \<notin> set (posts d)
      \<longrightarrow> is_user (user req) (post_author p))
   \<and> PostCreateView_post d req (pf\<lparr>form_instance := (form_instance pf)\<lparr>post_author := a\<rparr>\<rparr>)
       = PostCreateView_post d req pf
   \<and> (CommentCreateView_post d req' pid cf = Inr (resp, d') \<longrightarrow> c \<in> set (comments d')
      \<longrightarrow> c \<notin> set (comments d)
      \<longrightarrow> is_user (user req') (comment_author c)
          \<and> comment_post c = pid
          \<and> pid \<in> post_id ` set (posts d))
   \<and> CommentCreateView_post d req' pid
         (cf\<lparr>form_instance := (form_instance cf)\<lparr>comment_author := a, comment_post := b\<rparr>\<rparr>)
       = CommentCreateView_post d req' pid cf"
proof -
  have p_author: "is_user (user req) (post_author p)"
    if "p \<in> set (posts (snd (PostCreateView_post d req pf)))" and "p \<notin> set (posts d)"
    using that
    by (auto simp: PostCreateView_post_def Let_def split: viewer.splits if_splits)
  have p_ignored:
    "PostCreateView_post d req (pf\<lparr>form_instance := (form_instance pf)\<lparr>post_author := a\<rparr>\<rparr>)
       = PostCreateView_post d req pf"
    by (simp add: PostCreateView_post_def Let_def split: viewer.splits)
  have c_fields: "is_user (user req') (comment_author c) \<and> comment_post c = pid
      \<and> pid \<in> post_id ` set (posts d)"
    if run: "CommentCreateView_post d req' pid cf = Inr (resp, d')"
      and new: "c \<in> set (comments d')" "c \<notin> set (comments d)"
  proof -
    obtain P where found: "get_object_or_404 (posts d) (\<lambda>p. post_id p = pid) = Inr P"
      using run by (auto simp: CommentCreateView_post_def split: sum.splits)
    then have "filter (\<lambda>p. post_id p = pid) (posts d) = [P]"
      by (auto simp: get_object_or_404_def split: list.splits)
    then have "P \<in> set (filter (\<lambda>p. post_id p = pid) (posts d))" by simp
    then have P: "P \<in> set (posts d)" "post_id P = pid" by simp_all
    then have stored: "pid \<in> post_id ` set (posts d)" by blast
    have "is_user (user req') (comment_author c) \<and> comment_post c = pid"
      using run new P(2)
      by (auto simp: CommentCreateView_post_def found Let_def split: viewer.splits if_splits)
    with stored show ?thesis by simp
  qed
  have c_ignored: "CommentCreateView_post d req' pid
         (cf\<lparr>form_instance := (form_instance cf)\<lparr>comment_author := a, comment_post := b\<rparr>\<rparr>)
       = CommentCreateView_post d req' pid cf"
    by (simp add: CommentCreateView_post_def Let_def split: sum.splits viewer.splits)
  from p_author p_ignored c_fields c_ignored show ?thesis by blast
qed

theorem created_rows_belong_to_viewer_witness:
  "new_post\<lparr>post_author := 1, post_id := 6\<rparr>
     \<in> set (posts (snd (PostCreateView_post blog_db as_alice
                           \<lparr>is_valid = True, form_instance = new_post\<rparr>)))
   \<and> new_post\<lparr>post_author := 1, post_id := 6\<rparr> \<notin> set (posts blog_db)
   \<and> post_author new_post = 2
   \<and> comment_author new_comment = 1
   \<and> comment_post new_comment = 1
   \<and> CommentCreateView_post blog_db as_bob 3 \<lparr>is_valid = True, form_instance = new_comment\<rparr>
       = Inr (Redirect (PostDetailPage 3),
              blog_db\<lparr>comments := [first_comment,
                 new_comment\<lparr>comment_author := 2, comment_post := 3, comment_id := 2\<rparr>],
                 comment_id_seq := 2\<rparr>)
   \<and> is_user (user as_alice) (post_author (new_post\<lparr>post_author := 1, post_id := 6\<rparr>))
   \<and> is_user (user as_bob)
        (comment_author (new_comment\<lparr>comment_author := 2, comment_post := 3, comment_id := 2\<rparr>))
   \<and> comment_post (new_comment\<lparr>comment_author := 2, comment_post := 3, comment_id := 2\<rparr>) = 3
   \<and> 3 \<in> post_id ` set (posts blog_db)"
proof -
  let ?p = "new_post\<lparr>post_author := 1, post_id := 6\<rparr>"
  let ?c = "new_comment\<lparr>comment_author := 2, comment_post := 3, comment_id := 2\<rparr>"
  let ?d' = "blog_db\<lparr>comments := [first_comment, ?c], comment_id_seq := 2\<rparr>"
  let ?pf = "\<lparr>is_valid = True, form_instance = new_post\<rparr>"
  let ?cf = "\<lparr>is_valid = True, form_instance = new_comment\<rparr>"
  have h1: "?p \<in> set (posts (snd (PostCreateView_post blog_db as_alice ?pf)))"
    by (simp add: PostCreateView_post_def sample_defs new_post_def)
  have h2: "?p \<notin> set (posts blog_db)"
    by (simp add: sample_defs new_post_def)
  have h3: "CommentCreateView_post blog_db as_bob 3 ?cf = Inr (Redirect (PostDetailPage 3), ?d')"
    by (simp add: CommentCreateView_post_def get_object_or_404_def sample_defs new_comment_def)
  have h4: "?c \<in> set (comments ?d')" by simp
  have h5: "?c \<notin> set (comments blog_db)"
    by (simp add: sample_defs new_comment_def)
  have sent: "post_author new_post = 2" "comment_author new_comment = 1"
      "comment_post new_comment = 1"
    by (simp_all add: new_post_def new_comment_def)
  note run = created_rows_belong_to_viewer
    [where d = blog_db and req = as_alice and pf = ?pf and p = ?p
       and req' = as_bob and pid = 3 and cf = ?cf and resp = "Redirect (PostDetailPage 3)"
       and d' = ?d' and c = ?c]
  from run h1 h2 have post_half: "is_user (user as_alice) (post_author ?p)"
    by blast
  from run h3 h4 h5 have comment_half: "is_user (user as_bob) (comment_author ?c)
      \<and> comment_post ?c = 3 \<and> 3 \<in> post_id ` set (posts blog_db)"
    by blast
  from h1 h2 h3 sent post_half comment_half show ?thesis by blast
qed

text \<open>
  C9. Comment creation asks only that the post exists. For every stored post \<open>P\<close>, live or
  not, and every authenticated viewer, author of \<open>P\<close> or not, a valid comment form is
  saved as a new comment on \<open>P\<close> by that viewer, and the answer is a redirect to the page
  of \<open>P\<close>.
\<close>

theorem CommentCreateView_any_stored_post:
  assumes "distinct (map post_id (posts d))"
    and "P \<in> set (posts d)"
    and "user req = Authenticated u"
    and "is_valid f"
  shows "CommentCreateView_post d req (post_id P) f =
           Inr (Redirect (PostDetailPage (post_id P)),
                d\<lparr>comments := comments d @
                   [(form_instance f)\<lparr>comment_author := user_id u,
                                       comment_post := post_id P,
                                       comment_id := Suc (comment_id_seq d)\<rparr>],
                  comment_id_seq := Suc (comment_id_seq d)\<rparr>)"
proof -
  have "get_object_or_404 (posts d) (\<lambda>p. post_id p = post_id P) = Inr P"
    using assms(1,2) by (rule get_by_key)
  with assms(3,4) show ?thesis
    by (simp add: CommentCreateView_post_def Let_def)
qed

theorem CommentCreateView_any_stored_post_witness:
  "distinct (map post_id (posts blog_db))
   \<and> draft_post \<in> set (posts blog_db)
   \<and> user as_bob = Authenticated bob
   \<and> is_valid \<lparr>is_valid = True, form_instance = new_comment\<rparr>
   \<and> PostDetailView_get_object blog_db as_bob 3 = Inl Http404
   \<and> CommentCreateView_post blog_db as_bob 3 \<lparr>is_valid = True, form_instance = new_comment\<rparr>
       = Inr (Redirect (PostDetailPage 3),
              blog_db\<lparr>comments := [first_comment,
                 new_comment\<lparr>comment_author := 2, comment_post := 3, comment_id := 2\<rparr>],
                 comment_id_seq := 2\<rparr>)"
proof -
  have h1: "distinct (map post_id (posts blog_db))" by (simp add: sample_defs)
  have h2: "draft_post \<in> set (posts blog_db)" by (simp add: blog_db_def)
  have h3: "user as_bob = Authenticated bob" by (simp add: as_bob_def)
  have h4: "is_valid \<lparr>is_valid = True, form_instance = new_comment\<rparr>" by simp
  have hidden: "PostDetailView_get_object blog_db as_bob 3 = Inl Http404"
    by (simp add: PostDetailView_get_object_def get_object_or_404_def sample_defs)
  have key: "post_id draft_post = 3" by (simp add: draft_post_def)
  have who: "user_id bob = 2" by (simp add: bob_def)
  have rows: "comments blog_db = [first_comment]" by (simp add: blog_db_def)
  have last: "Suc (comment_id_seq blog_db) = 2" by (simp add: blog_db_def)
  from CommentCreateView_any_stored_post [OF h1 h2 h3 h4] key who rows last
  have "CommentCreateView_post blog_db as_bob 3 \<lparr>is_valid = True, form_instance = new_comment\<rparr>
       = Inr (Redirect (PostDetailPage 3),
              blog_db\<lparr>comments := [first_comment,
                 new_comment\<lparr>comment_author := 2, comment_post := 3, comment_id := 2\<rparr>],
                 comment_id_seq := 2\<rparr>)"
    by simp
  with h1 h2 h3 h4 hidden show ?thesis by simp
qed

section \<open>Editing the profile\<close>

lemma save_row_other:
  assumes "key obj \<noteq> k"
  shows "filter (\<lambda>x. key x = k) (save_row key obj tbl) = filter (\<lambda>x. key x = k) tbl"
proof -
  have "filter (\<lambda>x. key x = k) (map (\<lambda>r. if key r = key obj then obj else r) tbl)
      = filter (\<lambda>x. key x = k) tbl"
    using assms by (induction tbl) auto
  with assms show ?thesis by (simp add: save_row_def)
qed

text \<open>
  C10. The object that the profile update edits is \<open>request.user\<close>, and nothing else of the
  request chooses it. The rows of any user \<open>r\<close> other than the viewer are the same after
  the operation as before, and so are the other tables.
\<close>

theorem ProfileUpdateView_only_own_record:
  assumes "\<not> is_user (user req) (user_id r)"
  shows "ProfileUpdateView_get_object req = user req
         \<and> filter (\<lambda>x. user_id x = user_id r) (users (snd (ProfileUpdateView_post d req f)))
             = filter (\<lambda>x. user_id x = user_id r) (users d)
         \<and> posts (snd (ProfileUpdateView_post d req f)) = posts d
         \<and> comments (snd (ProfileUpdateView_post d req f)) = comments d
         \<and> categories (snd (ProfileUpdateView_post d req f)) = categories d"
proof (cases "user req")
  case AnonymousUser
  then show ?thesis
    by (simp add: ProfileUpdateView_post_def ProfileUpdateView_get_object_def)
next
  case (Authenticated u)
  with assms have "user_id u \<noteq> user_id r" by simp
  with Authenticated show ?thesis
    by (simp add: ProfileUpdateView_post_def ProfileUpdateView_get_object_def Let_def
        save_row_other)
qed

theorem ProfileUpdateView_only_own_record_witness:
  "\<not> is_user (user as_alice) (user_id bob)
   \<and> ProfileUpdateView_post blog_db as_alice \<lparr>is_valid = True, form_instance = new_profile\<rparr>
       = (Redirect (ProfilePage ''alicia''),
          blog_db\<lparr>users := [new_profile\<lparr>user_id := 1\<rparr>, bob]\<rparr>)
   \<and> filter (\<lambda>x. user_id x = user_id bob)
        (users (snd (ProfileUpdateView_post blog_db as_alice
                       \<lparr>is_valid = True, form_instance = new_profile\<rparr>))) = [bob]"
proof -
  have h1: "\<not> is_user (user as_alice) (user_id bob)" by (simp add: sample_defs)
  have run: "ProfileUpdateView_post blog_db as_alice \<lparr>is_valid = True, form_instance = new_profile\<rparr>
       = (Redirect (ProfilePage ''alicia''),
          blog_db\<lparr>users := [new_profile\<lparr>user_id := 1\<rparr>, bob]\<rparr>)"
    by (simp add: ProfileUpdateView_post_def ProfileUpdateView_get_object_def save_row_def
        sample_defs new_profile_def)
  have before: "filter (\<lambda>x. user_id x = user_id bob) (users blog_db) = [bob]"
    by (simp add: sample_defs)
  from ProfileUpdateView_only_own_record [OF h1, of blog_db "\<lparr>is_valid = True, form_instance = new_profile\<rparr>"] before
  have "filter (\<lambda>x. user_id x = user_id bob)
        (users (snd (ProfileUpdateView_post blog_db as_alice
                       \<lparr>is_valid = True, form_instance = new_profile\<rparr>))) = [bob]"
    by simp
  with h1 run show ?thesis by simp
qed

section \<open>Editing and deleting posts and comments\<close>

text \<open>
  C3. When the viewer is not the author of a stored post \<open>P\<close>, \<open>canMutate\<close> is false and
  an update or a delete of \<open>P\<close> leaves the whole database as it was and answers with a
  redirect, not an error: to the page of the post for an authenticated viewer, and to the
  login page for the anonymous one. The same holds of a stored comment \<open>C\<close> that the
  viewer did not write. Neither half asks anything of the other table.
\<close>

theorem non_author_write_rejected:
  "(distinct (map post_id (posts d)) \<longrightarrow> P \<in> set (posts d)
      \<longrightarrow> \<not> is_user (user req) (post_author P)
      \<longrightarrow> \<not> canMutate (post_author P) (user req)
          \<and> PostUpdateView_post d req (post_id P) pf =
              Inr (Redirect (if is_authenticated (user req)
                             then PostDetailPage (post_id P) else LoginPage), d)
          \<and> PostDeleteView_post d req (post_id P) =
              Inr (Redirect (if is_authenticated (user req)
                             then PostDetailPage (post_id P) else LoginPage), d))
   \<and> (distinct (map comment_id (comments d)) \<longrightarrow> C \<in> set (comments d)
      \<longrightarrow> \<not> is_user (user req) (comment_author C)
      \<longrightarrow> \<not> canMutate (comment_author C) (user req)
          \<and> CommentUpdateView_post d req pid (comment_id C) cf =
              Inr (Redirect (if is_authenticated (user req)
                             then PostDetailPage pid else LoginPage), d)
          \<and> CommentDeleteView_post d req pid (comment_id C) =
              Inr (Redirect (if is_authenticated (user req)
                             then PostDetailPage pid else LoginPage), d))"
proof -
  have post_half: "\<not> canMutate (post_author P) (user req)
          \<and> PostUpdateView_post d req (post_id P) pf =
              Inr (Redirect (if is_authenticated (user req)
                             then PostDetailPage (post_id P) else LoginPage), d)
          \<and> PostDeleteView_post d req (post_id P) =
              Inr (Redirect (if is_authenticated (user req)
                             then PostDetailPage (post_id P) else LoginPage), d)"
    if keys: "distinct (map post_id (posts d))" and stored: "P \<in> set (posts d)"
      and other: "\<not> is_user (user req) (post_author P)"
  proof -
    have found: "get_object_or_404 (posts d) (\<lambda>p. post_id p = post_id P) = Inr P"
      using keys stored by (rule get_by_key)
    have no: "\<not> canMutate (post_author P) (user req)"
      using other by (simp add: canMutate_def)
    have update: "PostUpdateView_post d req (post_id P) pf =
              Inr (Redirect (if is_authenticated (user req)
                             then PostDetailPage (post_id P) else LoginPage), d)"
      using no by (simp add: PostUpdateView_post_def PostChangeMixin_dispatch_def found)
    have delete: "PostDeleteView_post d req (post_id P) =
              Inr (Redirect (if is_authenticated (user req)
                             then PostDetailPage (post_id P) else LoginPage), d)"
      using no
      by (cases "user req")
        (simp_all add: PostDeleteView_post_def PostChangeMixin_dispatch_def found)
    from no update delete show ?thesis by simp
  qed
  have comment_half: "\<not> canMutate (comment_author C) (user req)
          \<and> CommentUpdateView_post d req pid (comment_id C) cf =
              Inr (Redirect (if is_authenticated (user req)
                             then PostDetailPage pid else LoginPage), d)
          \<and> CommentDeleteView_post d req pid (comment_id C) =
              Inr (Redirect (if is_authenticated (user req)
                             then PostDetailPage pid else LoginPage), d)"
    if keys: "distinct (map comment_id (comments d))" and stored: "C \<in> set (comments d)"
      and other: "\<not> is_user (user req) (comment_author C)"
  proof -
    have found: "get_object_or_404 (comments d) (\<lambda>c. comment_id c = comment_id C) = Inr C"
      using keys stored by (rule get_by_key)
    have no: "\<not> canMutate (comment_author C) (user req)"
      using other by (simp add: canMutate_def)
    have update: "CommentUpdateView_post d req pid (comment_id C) cf =
              Inr (Redirect (if is_authenticated (user req)
                             then PostDetailPage pid else LoginPage), d)"
      using no
      by (simp add: CommentUpdateView_post_def CommentChangeMixin_dispatch_def found)
    have delete: "CommentDeleteView_post d req pid (comment_id C) =
              Inr (Redirect (if is_authenticated (user req)
                             then PostDetailPage pid else LoginPage), d)"
      using no
      by (simp add: CommentDeleteView_post_def CommentChangeMixin_dispatch_def found)
    from no update delete show ?thesis by simp
  qed
  from post_half comment_half show ?thesis by blast
qed

theorem non_author_write_rejected_witness:
  "distinct (map post_id (posts blog_db))
   \<and> archived_post \<in> set (posts blog_db)
   \<and> \<not> is_user (user as_alice) (post_author archived_post)
   \<and> distinct (map comment_id (comments blog_db))
   \<and> first_comment \<in> set (comments blog_db)
   \<and> \<not> is_user (user as_alice) (comment_author first_comment)
   \<and> PostUpdateView_post blog_db as_alice 4 \<lparr>is_valid = True, form_instance = new_post\<rparr>
       = Inr (Redirect (PostDetailPage 4), blog_db)
   \<and> PostDeleteView_post blog_db as_alice 4 = Inr (Redirect (PostDetailPage 4), blog_db)
   \<and> CommentUpdateView_post blog_db as_alice 1 1 \<lparr>is_valid = True, form_instance = new_comment\<rparr>
       = Inr (Redirect (PostDetailPage 1), blog_db)
   \<and> CommentDeleteView_post blog_db as_alice 1 1 = Inr (Redirect (PostDetailPage 1), blog_db)
   \<and> PostDeleteView_post blog_db as_anonymous 4 = Inr (Redirect LoginPage, blog_db)
   \<and> CommentDeleteView_post blog_db as_anonymous 1 1 = Inr (Redirect LoginPage, blog_db)"
proof -
  let ?pf = "\<lparr>is_valid = True, form_instance = new_post\<rparr>"
  let ?cf = "\<lparr>is_valid = True, form_instance = new_comment\<rparr>"
  have h1: "distinct (map post_id (posts blog_db))" by (simp add: sample_defs)
  have h2: "archived_post \<in> set (posts blog_db)" by (simp add: blog_db_def)
  have h3: "\<not> is_user (user as_alice) (post_author archived_post)" by (simp add: sample_defs)
  have h4: "distinct (map comment_id (comments blog_db))" by (simp add: sample_defs)
  have h5: "first_comment \<in> set (comments blog_db)" by (simp add: blog_db_def)
  have h6: "\<not> is_user (user as_alice) (comment_author first_comment)" by (simp add: sample_defs)
  have a3: "\<not> is_user (user as_anonymous) (post_author archived_post)"
    by (simp add: as_anonymous_def)
  have a6: "\<not> is_user (user as_anonymous) (comment_author first_comment)"
    by (simp add: as_anonymous_def)
  have keys: "post_id archived_post = 4" "comment_id first_comment = 1"
    by (simp_all add: sample_defs)
  have who: "is_authenticated (user as_alice)" "\<not> is_authenticated (user as_anonymous)"
    by (simp_all add: as_alice_def as_anonymous_def)
  note run = non_author_write_rejected
    [where d = blog_db and req = as_alice and P = archived_post and C = first_comment
       and pf = ?pf and cf = ?cf and pid = 1]
  note anon = non_author_write_rejected
    [where d = blog_db and req = as_anonymous and P = archived_post and C = first_comment
       and pf = ?pf and cf = ?cf and pid = 1]
  from run h1 h2 h3 keys who
  have posts_kept: "PostUpdateView_post blog_db as_alice 4 ?pf
       = Inr (Redirect (PostDetailPage 4), blog_db)
     \<and> PostDeleteView_post blog_db as_alice 4 = Inr (Redirect (PostDetailPage 4), blog_db)"
    by simp
  from run h4 h5 h6 keys who
  have comments_kept: "CommentUpdateView_post blog_db as_alice 1 1 ?cf
       = Inr (Redirect (PostDetailPage 1), blog_db)
     \<and> CommentDeleteView_post blog_db as_alice 1 1 = Inr (Redirect (PostDetailPage 1), blog_db)"
    by simp
  from anon h1 h2 a3 keys who
  have anon_post: "PostDeleteView_post blog_db as_anonymous 4 = Inr (Redirect LoginPage, blog_db)"
    by simp
  from anon h4 h5 a6 keys who
  have anon_comment:
    "CommentDeleteView_post blog_db as_anonymous 1 1 = Inr (Redirect LoginPage, blog_db)"
    by simp
  from h1 h2 h3 h4 h5 h6 posts_kept comments_kept anon_post anon_comment
  show ?thesis by blast
qed


text \<open>
  The same delete by the author does write: the post and its comment are gone.
\<close>

lemma PostDeleteView_by_author:
  "PostDeleteView_post blog_db as_alice 1 =
     Inr (Redirect (ProfilePage ''alice''),
          blog_db\<lparr>posts := [future_post, draft_post, archived_post, tied_post],
                  comments := []\<rparr>)"
  by (simp add: PostDeleteView_post_def PostChangeMixin_dispatch_def canMutate_def
      get_object_or_404_def sample_defs)

end
